theory Spec2Isabelle
  imports Main "HOL-Library.Sublist"
begin

section \<open>JavaScript strings\<close>

text \<open>
  A JavaScript string is modelled as a \<open>string\<close>: one \<open>char\<close> per code unit, code
  units below 256. The helpers below are the \<open>String.prototype\<close> methods and the
  character classes that \<open>fetch.js\<close> and Node's \<open>url.parse\<close> use.
\<close>

text \<open>\<open>s.split(c)\<close> for a one-character separator: \<open>''''.split(c)\<close> is \<open>['''']\<close>.\<close>

fun split_on :: "char \<Rightarrow> string \<Rightarrow> string list" where
  "split_on c [] = [[]]"
| "split_on c (x # xs) =
     (if x = c then [] # split_on c xs
      else (case split_on c xs of [] \<Rightarrow> [[x]] | y # ys \<Rightarrow> (x # y) # ys))"

text \<open>
  \<open>s.substring(0, s.indexOf('#'))\<close>: \<open>indexOf\<close> is -1 when there is no \<open>#\<close>, and
  \<open>substring\<close> clamps a negative bound to 0.
\<close>

definition substring_to_hash :: "string \<Rightarrow> string" where
  "substring_to_hash s = (if CHR ''#'' \<in> set s then takeWhile (\<lambda>c. c \<noteq> CHR ''#'') s else [])"

text \<open>White space of \<open>String.prototype.trim\<close> among the code units below 256.\<close>

definition js_whitespace :: "char \<Rightarrow> bool" where
  "js_whitespace c = (c \<in> set [CHR 0x09, CHR 0x0A, CHR 0x0B, CHR 0x0C, CHR 0x0D, CHR 0x20, CHR 0xA0])"

definition js_trim :: "string \<Rightarrow> string" where
  "js_trim s = rev (dropWhile js_whitespace (rev (dropWhile js_whitespace s)))"

text \<open>The line terminators that \<open>.\<close> of a regular expression does not match.\<close>

definition line_terminator :: "char \<Rightarrow> bool" where
  "line_terminator c = (c = CHR 0x0A \<or> c = CHR 0x0D)"

text \<open>\<open>\w\<close> of a regular expression.\<close>

definition word_char :: "char \<Rightarrow> bool" where
  "word_char c =
     (c \<in> set ''abcdefghijklmnopqrstuvwxyzABCDEFGHIJKLMNOPQRSTUVWXYZ0123456789_'')"

definition js_toLowerCase :: "string \<Rightarrow> string" where
  "js_toLowerCase s =
     map (\<lambda>c. case map_of (zip ''ABCDEFGHIJKLMNOPQRSTUVWXYZ'' ''abcdefghijklmnopqrstuvwxyz'') c of
                 None \<Rightarrow> c | Some l \<Rightarrow> l) s"

section \<open>Node's \<open>url.parse\<close>, as far as \<open>fetchPlugin\<close> reads it\<close>

text \<open>
  \<open>fetchPlugin\<close> reads two fields of \<open>url.parse(plugin_src)\<close>: \<open>protocol\<close> and \<open>hash\<close>.
  Node's parser trims the input, takes the longest prefix matching
  \<open>/^([a-z0-9.+-]+:)/i\<close> as the protocol (in lower case), percent-escapes the characters
  of its \<open>autoEscape\<close> table in what follows (unless the protocol is \<open>javascript:\<close>), and
  takes as \<open>hash\<close> everything from the first \<open>#\<close> on. A field that is absent is \<open>None\<close>.
\<close>

record uri =
  uri_protocol :: "string option"
  uri_hash :: "string option"

definition protocol_char :: "char \<Rightarrow> bool" where
  "protocol_char c =
     (c \<in> set ''abcdefghijklmnopqrstuvwxyzABCDEFGHIJKLMNOPQRSTUVWXYZ0123456789.+-'')"

definition autoEscape :: "(char \<times> string) list" where
  "autoEscape =
     [(CHR 0x27, ''%27''), (CHR 0x7B, ''%7B''), (CHR 0x7D, ''%7D''), (CHR 0x7C, ''%7C''),
      (CHR 0x5C, ''%5C''), (CHR 0x5E, ''%5E''), (CHR 0x60, ''%60''), (CHR 0x3C, ''%3C''),
      (CHR 0x3E, ''%3E''), (CHR 0x22, ''%22''), (CHR 0x20, ''%20''), (CHR 0x0D, ''%0D''),
      (CHR 0x0A, ''%0A''), (CHR 0x09, ''%09'')]"

definition auto_escape :: "string \<Rightarrow> string" where
  "auto_escape s = concat (map (\<lambda>c. case map_of autoEscape c of None \<Rightarrow> [c] | Some e \<Rightarrow> e) s)"

definition url_parse :: "string \<Rightarrow> uri" where
  "url_parse url =
     (let rest = js_trim url;
          scheme = takeWhile protocol_char rest;
          after = dropWhile protocol_char rest;
          proto = (if scheme \<noteq> [] \<and> take 1 after = '':''
                   then Some (js_toLowerCase scheme @ '':'') else None);
          rest1 = (if proto = None then rest else drop 1 after);
          rest2 = (if proto = Some ''javascript:'' then rest1 else auto_escape rest1);
          hash = dropWhile (\<lambda>c. c \<noteq> CHR ''#'') rest2
      in \<lparr> uri_protocol = proto, uri_hash = (if hash = [] then None else Some hash) \<rparr>)"

section \<open>The two regular expressions of \<open>fetchPlugin\<close>\<close>

text \<open>
  \<open>hash.match(/^#([^:]*)(?::\/?(.*?)\/?)?$/)\<close>. The first group is everything up to the
  first colon. Without a colon the optional part does not take part and the second group
  is \<open>undefined\<close> (\<open>None\<close>). With a colon, one leading slash is consumed if there is
  one, the lazy \<open>(.*?)\<close> stops as soon as what is left is empty or one slash, and \<open>.\<close>
  matches no line terminator: the match fails when one follows the colon. The result is
  \<open>(result[1], result[2])\<close>.
\<close>

definition strip_one_leading_slash :: "string \<Rightarrow> string" where
  "strip_one_leading_slash s = (if take 1 s = ''/'' then drop 1 s else s)"

definition strip_one_trailing_slash :: "string \<Rightarrow> string" where
  "strip_one_trailing_slash s = (if s \<noteq> [] \<and> last s = CHR ''/'' then butlast s else s)"

definition match_hash :: "string \<Rightarrow> (string \<times> string option) option" where
  "match_hash h =
     (case h of
        [] \<Rightarrow> None
      | c # t \<Rightarrow>
          if c \<noteq> CHR ''#'' then None
          else (case dropWhile (\<lambda>c. c \<noteq> CHR '':'') t of
                  [] \<Rightarrow> Some (t, None)
                | _ # r \<Rightarrow>
                    if list_ex line_terminator r then None
                    else Some (takeWhile (\<lambda>c. c \<noteq> CHR '':'') t,
                               Some (strip_one_trailing_slash (strip_one_leading_slash r)))))"

text \<open>\<open>plugin_src.match(/^\w+:\\/)\<close>: a drive-letter style path such as \<open>d:\dir\<close>.\<close>

definition match_drive :: "string \<Rightarrow> bool" where
  "match_drive s =
     (takeWhile word_char s \<noteq> [] \<and> take 2 (dropWhile word_char s) = [CHR '':'', CHR 0x5C])"

section \<open>Data of \<open>fetch.js\<close>\<close>

text \<open>
  The \<open>options\<close> object. A field that JavaScript reads as \<open>undefined\<close> is \<open>None\<close> (or
  \<open>SearchpathAbsent\<close>); \<open>link\<close> and \<open>noregistry\<close> are only tested for truth. An omitted
  \<open>options\<close> argument is \<open>no_options\<close>, the object \<open>{}\<close> that line 46 puts in its place.
  \<open>options.plugin_src_dir\<close>, which line 129 writes and \<open>fetch.js\<close> never reads, is left out.
\<close>

datatype searchpath_option =
  SearchpathAbsent | SearchpathString string | SearchpathArray "string list"

record options =
  link :: bool
  subdir :: "string option"
  git_ref :: "string option"
  searchpath :: searchpath_option
  noregistry :: bool
  expected_id :: "string option"
  client :: nat

definition no_options :: options where
  "no_options = \<lparr> link = False, subdir = None, git_ref = None, searchpath = SearchpathAbsent,
                  noregistry = False, expected_id = None, client = 0 \<rparr>"

text \<open>A \<open>PluginInfo\<close> object, as far as \<open>fetch.js\<close> reads it: \<open>id\<close>, \<open>version\<close>, \<open>dir\<close>.\<close>

record pinfo =
  pinfo_id :: string
  pinfo_version :: string
  pinfo_dir :: string

text \<open>
  What is thrown or rejected: \<open>new CordovaError(msg)\<close>, \<open>new Error(msg)\<close>, and the failures
  of the collaborators (a descriptor that cannot be read, a failed clone, a failed registry
  fetch, an \<open>fs\<close> error).
\<close>

datatype error = CordovaError string | Error string | CollaboratorError string

text \<open>
  The \<open>data.source\<close> object handed to \<open>metadata.save_fetch_metadata\<close>: \<open>fetch.js\<close> builds
  \<open>{type: 'git', url, subdir, ref}\<close> (lines 78-85) and \<open>{type: 'local', path}\<close> (lines
  181-186), and no other.
\<close>

datatype fetch_source =
  GitSource (source_url: string) (source_subdir: string) (source_ref: "string option")
| LocalSource (source_path: string)

fun source_type :: "fetch_source \<Rightarrow> string" where
  "source_type (GitSource u s r) = ''git''"
| "source_type (LocalSource p) = ''local''"

text \<open>The calls made to the git and registry collaborators, in order.\<close>

datatype call =
  ClonePluginGit string string
| RegistryFetch "string list" nat

text \<open>
  The collaborators are parameters: Node's \<open>path\<close> and \<open>fs\<close>, \<open>shelljs\<close>, and the modules
  of the repository that \<open>fetch.js\<close> requires (\<open>PluginInfo\<close>, \<open>util/plugins\<close>,
  \<open>registry/registry\<close>). \<open>'fs\<close> is the state of the file system. A promise is its outcome:
  \<open>Inl\<close> a rejection, \<open>Inr\<close> the value it resolves to. The \<open>shelljs\<close> commands report an
  error on the console and return, so they are total; \<open>fs.symlinkSync\<close> and the
  \<open>PluginInfo\<close> constructor throw.
\<close>

record 'fs env =
  path_delimiter :: char
  path_join :: "string \<Rightarrow> string \<Rightarrow> string"
  fs_existsSync :: "'fs \<Rightarrow> string \<Rightarrow> bool"
  fs_symlinkSync :: "string \<Rightarrow> string \<Rightarrow> 'fs \<Rightarrow> error + 'fs"
  shell_mkdir_p :: "string \<Rightarrow> 'fs \<Rightarrow> 'fs"
  shell_rm_rf :: "string \<Rightarrow> 'fs \<Rightarrow> 'fs"
  shell_cp_R :: "string \<Rightarrow> string \<Rightarrow> 'fs \<Rightarrow> 'fs"
  PluginInfo :: "'fs \<Rightarrow> string \<Rightarrow> error + pinfo"
  loadPluginsDir :: "'fs \<Rightarrow> string \<Rightarrow> pinfo list"
  clonePluginGit :: "string \<Rightarrow> string \<Rightarrow> options \<Rightarrow> 'fs \<Rightarrow> (error + string) \<times> 'fs"
  registry_fetch :: "string list \<Rightarrow> nat \<Rightarrow> 'fs \<Rightarrow> (error + string) \<times> 'fs"

text \<open>
  The state \<open>fetch.js\<close> works on: the file system, the module variable \<open>localPlugins\<close>
  (\<open>null\<close> is \<open>None\<close>; the object is the map of its own properties), the calls made so
  far, and the fetch metadata.

  Modelled from the spec: \<open>metadata.save_fetch_metadata(dir, data)\<close> is not among the
  sources. The provenance record is "persisted beside" the plugin directory and "must
  round-trip exactly what was written": \<open>fetch_metadata\<close> maps a directory to the record
  last saved for it.
\<close>

record 'fs state =
  files :: 'fs
  localPlugins :: "(string \<rightharpoonup> pinfo) option"
  calls :: "call list"
  fetch_metadata :: "string \<rightharpoonup> fetch_source"

definition save_fetch_metadata :: "string \<Rightarrow> fetch_source \<Rightarrow> 'fs state \<Rightarrow> 'fs state" where
  "save_fetch_metadata dir src st = st\<lparr> fetch_metadata := (fetch_metadata st)(dir \<mapsto> src) \<rparr>"

section \<open>The functions of \<open>fetch.js\<close>\<close>

subsection \<open>\<open>checkID\<close> (lines 140-151)\<close>

definition mismatch_message :: "string \<Rightarrow> string \<Rightarrow> string" where
  "mismatch_message expected got =
     ''Expected fetched plugin to have ID '' @ [CHR 0x22] @ expected @ [CHR 0x22] @
     '' but got '' @ [CHR 0x22] @ got @ [CHR 0x22] @ ''.''"

definition checkID :: "'fs env \<Rightarrow> string option \<Rightarrow> string \<Rightarrow> 'fs \<Rightarrow> error + unit" where
  "checkID env expected dir fs =
     (case expected of
        None \<Rightarrow> Inr ()
      | Some e_id \<Rightarrow>
          if e_id = [] then Inr ()
          else (case PluginInfo env fs dir of
                  Inl e \<Rightarrow> Inl e
                | Inr pinfo \<Rightarrow>
                    (let id = (if length (split_on CHR ''@'' e_id) > 1
                               then pinfo_id pinfo @ ''@'' @ pinfo_version pinfo
                               else pinfo_id pinfo)
                     in if e_id \<noteq> id
                        then Inl (Error (mismatch_message e_id id))
                        else Inr ())))"

subsection \<open>\<open>loadLocalPlugins\<close> (lines 156-165)\<close>

definition loadLocalPlugins :: "'fs env \<Rightarrow> string list \<Rightarrow> 'fs state \<Rightarrow> 'fs state" where
  "loadLocalPlugins env search st =
     (case localPlugins st of
        Some m \<Rightarrow> st
      | None \<Rightarrow>
          st\<lparr> localPlugins :=
                Some (fold (\<lambda>dir m. fold (\<lambda>p m. m(pinfo_id p \<mapsto> p)) (loadPluginsDir env (files st) dir) m)
                        search Map.empty) \<rparr>)"

subsection \<open>\<open>copyPlugin\<close> (lines 168-189)\<close>

definition copyPlugin ::
  "'fs env \<Rightarrow> string \<Rightarrow> string \<Rightarrow> bool \<Rightarrow> 'fs state \<Rightarrow> (error + string) \<times> 'fs state" where
  "copyPlugin env plugin_dir plugins_dir lnk st =
     (case PluginInfo env (files st) plugin_dir of
        Inl e \<Rightarrow> (Inl e, st)
      | Inr pinfo \<Rightarrow>
          (let dest = path_join env plugins_dir (pinfo_id pinfo);
               fs1 = shell_rm_rf env dest (files st)
           in case (if lnk then fs_symlinkSync env plugin_dir dest fs1
                    else Inr (shell_cp_R env (path_join env plugin_dir ''*'') dest
                                (shell_mkdir_p env dest fs1))) of
                Inl e \<Rightarrow> (Inl e, st\<lparr> files := fs1 \<rparr>)
              | Inr fs2 \<Rightarrow>
                  (Inr dest, save_fetch_metadata dest (LocalSource plugin_dir) (st\<lparr> files := fs2 \<rparr>))))"

subsection \<open>\<open>fetchPlugin\<close> (lines 42-137)\<close>

text \<open>Lines 46-51: the defaults of \<open>subdir\<close> and \<open>searchpath\<close>; an empty string is falsy.\<close>

definition subdir_value :: "options \<Rightarrow> string" where
  "subdir_value options =
     (case subdir options of None \<Rightarrow> ''.'' | Some s \<Rightarrow> if s = [] then ''.'' else s)"

definition searchpath_value :: "'fs env \<Rightarrow> options \<Rightarrow> string list" where
  "searchpath_value env options =
     (case searchpath options of
        SearchpathAbsent \<Rightarrow> []
      | SearchpathString s \<Rightarrow> if s = [] then [] else split_on (path_delimiter env) s
      | SearchpathArray dirs \<Rightarrow> dirs)"

definition default_options :: "'fs env \<Rightarrow> options \<Rightarrow> options" where
  "default_options env options =
     options\<lparr> subdir := Some (subdir_value options),
              searchpath := SearchpathArray (searchpath_value env options) \<rparr>"

text \<open>
  Lines 58-65: when \<open>uri.hash\<close> is there and matches, \<open>git_ref\<close> and \<open>subdir\<close> are
  overwritten by the groups that are not empty. \<open>None\<close> when line 60 is not passed.
\<close>

definition fragment_options :: "uri \<Rightarrow> options \<Rightarrow> options option" where
  "fragment_options u options =
     (case uri_hash u of
        None \<Rightarrow> None
      | Some h \<Rightarrow>
          if h = [] then None
          else (case match_hash h of
                  None \<Rightarrow> None
                | Some (r1, r2) \<Rightarrow>
                    Some (options\<lparr> git_ref := (if r1 \<noteq> [] then Some r1 else git_ref options),
                                   subdir := (case r2 of
                                                None \<Rightarrow> subdir options
                                              | Some s \<Rightarrow> if s \<noteq> [] then Some s else subdir options) \<rparr>)))"

text \<open>Line 73: the test for a network URL.\<close>

definition network_url :: "uri \<Rightarrow> string \<Rightarrow> bool" where
  "network_url u plugin_src =
     (case uri_protocol u of
        None \<Rightarrow> False
      | Some proto \<Rightarrow> proto \<noteq> [] \<and> proto \<noteq> ''file:'' \<and> proto \<noteq> ''c:'' \<and> \<not> match_drive plugin_src)"

text \<open>Lines 74-96: the git branch.\<close>

definition link_message :: string where
  "link_message = ''--link is not supported for git URLs''"

definition fetch_git ::
  "'fs env \<Rightarrow> string \<Rightarrow> string \<Rightarrow> options \<Rightarrow> 'fs state \<Rightarrow> (error + string) \<times> 'fs state" where
  "fetch_git env plugin_src plugins_dir options st =
     (if link options then (Inl (CordovaError link_message), st)
      else
        (let data = GitSource plugin_src (subdir_value options) (git_ref options);
             (r, fs1) = clonePluginGit env plugin_src plugins_dir options (files st);
             st1 = st\<lparr> files := fs1, calls := calls st @ [ClonePluginGit plugin_src plugins_dir] \<rparr>
         in case r of
              Inl e \<Rightarrow> (Inl e, st1)
            | Inr dir \<Rightarrow>
                (case checkID env (expected_id options) dir (files st1) of
                   Inl e \<Rightarrow> (Inl e, st1)
                 | Inr _ \<Rightarrow> (Inr dir, save_fetch_metadata dir data st1))))"

text \<open>Lines 127-135: the promise \<open>p\<close> is followed by \<open>copyPlugin\<close> and \<open>checkID\<close>.\<close>

definition copy_and_check ::
  "'fs env \<Rightarrow> string \<Rightarrow> string \<Rightarrow> options \<Rightarrow> bool \<Rightarrow> 'fs state \<Rightarrow> (error + string) \<times> 'fs state" where
  "copy_and_check env dir plugins_dir options linkable st =
     (case copyPlugin env dir plugins_dir (link options \<and> linkable) st of
        (Inl e, st1) \<Rightarrow> (Inl e, st1)
      | (Inr dest, st1) \<Rightarrow>
          (case checkID env (expected_id options) dest (files st1) of
             Inl e \<Rightarrow> (Inl e, st1)
           | Inr _ \<Rightarrow> (Inr dest, st1)))"

text \<open>Lines 98-136: a local path or a plugin id.\<close>

definition not_found_message :: "string \<Rightarrow> string" where
  "not_found_message plugin_src =
     ''Plugin '' @ plugin_src @ '' not found locally. '' @
     ''Note, plugin registry was disabled by --noregistry flag.''"

definition fetch_local ::
  "'fs env \<Rightarrow> string \<Rightarrow> string \<Rightarrow> options \<Rightarrow> 'fs state \<Rightarrow> (error + string) \<times> 'fs state" where
  "fetch_local env plugin_src plugins_dir options st =
     (let plugin_dir = path_join env plugin_src (subdir_value options)
      in if fs_existsSync env (files st) plugin_dir
         then copy_and_check env plugin_dir plugins_dir options True st
         else
           (let st1 = loadLocalPlugins env (searchpath_value env options) st
            in case (case localPlugins st1 of None \<Rightarrow> None | Some m \<Rightarrow> m plugin_src) of
                 Some pinfo \<Rightarrow> copy_and_check env (pinfo_dir pinfo) plugins_dir options True st1
               | None \<Rightarrow>
                   if noregistry options
                   then (Inl (CordovaError (not_found_message plugin_src)), st1)
                   else
                     (let (r, fs2) = registry_fetch env [plugin_src] (client options) (files st1);
                          st2 = st1\<lparr> files := fs2,
                                     calls := calls st1 @ [RegistryFetch [plugin_src] (client options)] \<rparr>
                      in case r of
                           Inl e \<Rightarrow> (Inl e, st2)
                         | Inr dir \<Rightarrow> copy_and_check env dir plugins_dir options False st2)))"

text \<open>
  \<open>fetchPlugin\<close> itself: line 44, the defaults, the fragment and its recursive call
  (line 68), then one of the two branches. The \<open>events.emit\<close> calls have no effect on
  the result and are left out.
\<close>

lemma set_js_trim: "set (js_trim s) \<subseteq> set s"
proof
  fix x assume "x \<in> set (js_trim s)"
  then have "x \<in> set (dropWhile js_whitespace (rev (dropWhile js_whitespace s)))"
    by (simp add: js_trim_def)
  then have "x \<in> set (rev (dropWhile js_whitespace s))"
    by (rule set_dropWhileD)
  then have "x \<in> set (dropWhile js_whitespace s)"
    by simp
  then show "x \<in> set s"
    by (rule set_dropWhileD)
qed

lemma autoEscape_no_hash: "list_all (\<lambda>(k, e). CHR ''#'' \<notin> set e) autoEscape"
  by (simp add: autoEscape_def)

lemma escape_no_hash: "map_of autoEscape c = Some e \<Longrightarrow> CHR ''#'' \<notin> set e"
  using autoEscape_no_hash by (auto simp: list_all_iff dest!: map_of_SomeD)

lemma hash_in_auto_escape: "CHR ''#'' \<in> set (auto_escape s) \<Longrightarrow> CHR ''#'' \<in> set s"
  by (induction s) (auto simp: auto_escape_def escape_no_hash split: option.splits)

lemma url_parse_hash_in:
  assumes "uri_hash (url_parse s) = Some h"
  shows "CHR ''#'' \<in> set s"
proof -
  define rest where "rest = js_trim s"
  define rest1 where
    "rest1 = (if \<not> (takeWhile protocol_char rest \<noteq> [] \<and> take 1 (dropWhile protocol_char rest) = '':'')
              then rest else drop 1 (dropWhile protocol_char rest))"
  define rest2 where
    "rest2 = (if takeWhile protocol_char rest \<noteq> [] \<and> take 1 (dropWhile protocol_char rest) = '':''
                 \<and> js_toLowerCase (takeWhile protocol_char rest) @ '':'' = ''javascript:''
              then rest1 else auto_escape rest1)"
  have "dropWhile (\<lambda>c. c \<noteq> CHR ''#'') rest2 \<noteq> []"
    using assms unfolding url_parse_def Let_def rest_def rest1_def rest2_def
    by (auto split: if_splits)
  then have "CHR ''#'' \<in> set rest2"
    by (auto simp: dropWhile_eq_Nil_conv)
  then have "CHR ''#'' \<in> set rest1"
    unfolding rest2_def by (auto split: if_splits dest: hash_in_auto_escape)
  then have "CHR ''#'' \<in> set rest"
    unfolding rest1_def by (auto split: if_splits dest: in_set_dropD set_dropWhileD)
  then show ?thesis
    unfolding rest_def using set_js_trim by blast
qed

lemma length_takeWhile_in: "x \<in> set s \<Longrightarrow> length (takeWhile (\<lambda>c. c \<noteq> x) s) < length s"
  by (induction s) auto

lemma length_substring_to_hash: "CHR ''#'' \<in> set s \<Longrightarrow> length (substring_to_hash s) < length s"
  by (simp add: substring_to_hash_def length_takeWhile_in)

lemma fragment_options_hash: "fragment_options u opts = Some opts' \<Longrightarrow> \<exists>h. uri_hash u = Some h"
  unfolding fragment_options_def by (cases "uri_hash u") auto

function fetchPlugin ::
  "'fs env \<Rightarrow> string \<Rightarrow> string \<Rightarrow> options \<Rightarrow> 'fs state \<Rightarrow> (error + string) \<times> 'fs state" where
  "fetchPlugin env plugin_src plugins_dir options st =
     (let st1 = st\<lparr> files := shell_mkdir_p env plugins_dir (files st) \<rparr>;
          options1 = default_options env options;
          u = url_parse plugin_src
      in case fragment_options u options1 of
           Some options2 \<Rightarrow> fetchPlugin env (substring_to_hash plugin_src) plugins_dir options2 st1
         | None \<Rightarrow>
             if network_url u plugin_src
             then fetch_git env plugin_src plugins_dir options1 st1
             else fetch_local env plugin_src plugins_dir options1 st1)"
  by pat_completeness auto
termination
proof (relation "measure (\<lambda>(env, plugin_src, plugins_dir, opts, st). length plugin_src)")
  show "wf (measure (\<lambda>(env, plugin_src, plugins_dir, opts, st). length plugin_src))"
    by simp
next
  fix env :: "'fs env" and plugin_src plugins_dir :: string and opts :: options
    and st st1 :: "'fs state" and options1 options2 :: options and u :: uri
  assume "u = url_parse plugin_src" and "fragment_options u options1 = Some options2"
  then have "CHR ''#'' \<in> set plugin_src"
    using fragment_options_hash url_parse_hash_in by blast
  then show "((env, substring_to_hash plugin_src, plugins_dir, options2, st1),
              (env, plugin_src, plugins_dir, opts, st))
             \<in> measure (\<lambda>(env, plugin_src, plugins_dir, opts, st). length plugin_src)"
    by (simp add: length_substring_to_hash)
qed

section \<open>A model of the collaborators\<close>

text \<open>
  Node's POSIX \<open>path.join\<close>: the arguments that are not empty are joined with a slash
  and the result is normalised (\<open>normalizeArray\<close> walks the segments from the last to the
  first, counting the \<open>..\<close> segments still to be applied).
\<close>

fun js_join :: "string \<Rightarrow> string list \<Rightarrow> string" where
  "js_join sep [] = []"
| "js_join sep [x] = x"
| "js_join sep (x # y # ys) = x @ sep @ js_join sep (y # ys)"

fun normalizeArray_up :: "string list \<Rightarrow> string list \<times> nat" where
  "normalizeArray_up [] = ([], 0)"
| "normalizeArray_up (p # ps) =
     (let (rest, up) = normalizeArray_up ps
      in if p = ''.'' then (rest, up)
         else if p = ''..'' then (rest, Suc up)
         else if up > 0 then (rest, up - 1)
         else (p # rest, up))"

definition normalizeArray :: "string list \<Rightarrow> bool \<Rightarrow> string list" where
  "normalizeArray parts allowAboveRoot =
     (let (rest, up) = normalizeArray_up parts
      in if allowAboveRoot then replicate up ''..'' @ rest else rest)"

definition posix_normalize :: "string \<Rightarrow> string" where
  "posix_normalize path =
     (let isAbsolute = (take 1 path = ''/'');
          trailingSlash = (path \<noteq> [] \<and> last path = CHR ''/'');
          p = js_join ''/'' (normalizeArray (filter (\<lambda>s. s \<noteq> []) (split_on CHR ''/'' path))
                               (\<not> isAbsolute));
          p1 = (if p = [] \<and> \<not> isAbsolute then ''.'' else p);
          p2 = (if p1 \<noteq> [] \<and> trailingSlash then p1 @ ''/'' else p1)
      in (if isAbsolute then ''/'' else []) @ p2)"

definition posix_join :: "string \<Rightarrow> string \<Rightarrow> string" where
  "posix_join a b = posix_normalize (js_join ''/'' (filter (\<lambda>s. s \<noteq> []) [a, b]))"


text \<open>
  The file system: a map from locations to entries. A location is the list of the
  segments of a path from the working directory, which is the root of the tree; \<open>to_path\<close>
  reads a path string, dropping empty and \<open>.\<close> segments and applying \<open>..\<close>. A symbolic
  link keeps the target string it was created with.
\<close>

type_synonym path = "string list"

datatype entry = File string | Dir | Symlink string

type_synonym filesystem = "path \<Rightarrow> entry option"

definition path_step :: "path \<Rightarrow> string \<Rightarrow> path" where
  "path_step p seg =
     (if seg = [] \<or> seg = ''.'' then p else if seg = ''..'' then butlast p else p @ [seg])"

definition to_path :: "string \<Rightarrow> path" where
  "to_path s = foldl path_step [] (split_on CHR ''/'' s)"

text \<open>The root is always a directory.\<close>

definition entry_at :: "filesystem \<Rightarrow> path \<Rightarrow> entry option" where
  "entry_at fs p = (if p = [] then Some Dir else fs p)"

text \<open>\<open>fs.existsSync(path)\<close>.\<close>

definition posix_existsSync :: "filesystem \<Rightarrow> string \<Rightarrow> bool" where
  "posix_existsSync fs s = (entry_at fs (to_path s) \<noteq> None)"

text \<open>\<open>shell.rm('-rf', path)\<close>: the entry and everything below it go.\<close>

definition posix_rm_rf :: "string \<Rightarrow> filesystem \<Rightarrow> filesystem" where
  "posix_rm_rf s fs = (\<lambda>p. if prefix (to_path s) p then None else fs p)"

text \<open>
  \<open>shell.mkdir('-p', path)\<close>: every missing directory on the way is created; when
  something that is not a directory is in the way, nothing is.
\<close>

definition posix_mkdir_p :: "string \<Rightarrow> filesystem \<Rightarrow> filesystem" where
  "posix_mkdir_p s fs =
     (if list_ex (\<lambda>q. entry_at fs q \<noteq> None \<and> entry_at fs q \<noteq> Some Dir) (prefixes (to_path s))
      then fs
      else (\<lambda>p. if prefix p (to_path s) \<and> fs p = None then Some Dir else fs p))"

text \<open>
  \<open>shell.cp('-R', dir/*, dest)\<close>, the one form \<open>fetch.js\<close> uses: every entry of \<open>dir\<close>
  whose name does not start with a dot is copied into the directory \<open>dest\<close> with all that
  is below it. Nothing is copied when \<open>dest\<close> is not a directory.
\<close>

definition dot_name :: "string \<Rightarrow> bool" where
  "dot_name name = (take 1 name = ''.'')"

definition below :: "path \<Rightarrow> path \<Rightarrow> path option" where
  "below d p = (if prefix d p then Some (drop (length d) p) else None)"

definition posix_cp_R :: "string \<Rightarrow> string \<Rightarrow> filesystem \<Rightarrow> filesystem" where
  "posix_cp_R pattern dest fs =
     (let g = to_path pattern; d = to_path dest
      in if g \<noteq> [] \<and> last g = ''*'' \<and> entry_at fs d = Some Dir
         then (\<lambda>p. case below d p of
                      Some (name # rest) \<Rightarrow>
                        if dot_name name then fs p
                        else (case fs (butlast g @ name # rest) of
                                None \<Rightarrow> fs p
                              | Some e \<Rightarrow> Some e)
                    | _ \<Rightarrow> fs p)
         else fs)"

text \<open>
  \<open>fs.symlinkSync(target, path, 'dir')\<close> throws when \<open>path\<close> exists or its parent
  is not a directory.
\<close>

definition posix_symlinkSync :: "string \<Rightarrow> string \<Rightarrow> filesystem \<Rightarrow> error + filesystem" where
  "posix_symlinkSync target s fs =
     (let p = to_path s
      in if entry_at fs p \<noteq> None then Inl (CollaboratorError ''EEXIST'')
         else if entry_at fs (butlast p) \<noteq> Some Dir then Inl (CollaboratorError ''ENOENT'')
         else Inr (fs(p \<mapsto> Symlink target)))"

text \<open>
  \<open>new PluginInfo(dir)\<close> reads \<open>dir/plugin.xml\<close>; \<open>parse\<close> gives the \<open>id\<close> and the
  \<open>version\<close> of its content. When \<open>dir\<close> is a symbolic link the file is read in the
  link's target, which is relative to the directory of the link unless it is absolute.
\<close>

definition resolve_dir :: "filesystem \<Rightarrow> path \<Rightarrow> path" where
  "resolve_dir fs p =
     (case entry_at fs p of
        Some (Symlink t) \<Rightarrow>
          if take 1 t = ''/'' then to_path t
          else foldl path_step (butlast p) (split_on CHR ''/'' t)
      | _ \<Rightarrow> p)"

definition posix_PluginInfo ::
  "(string \<Rightarrow> (string \<times> string) option) \<Rightarrow> filesystem \<Rightarrow> string \<Rightarrow> error + pinfo" where
  "posix_PluginInfo parse fs dir =
     (case fs (resolve_dir fs (to_path dir) @ [''plugin.xml'']) of
        Some (File content) \<Rightarrow>
          (case parse content of
             None \<Rightarrow> Inl (CollaboratorError ''plugin.xml cannot be parsed'')
           | Some (i, v) \<Rightarrow> Inr \<lparr> pinfo_id = i, pinfo_version = v, pinfo_dir = dir \<rparr>)
      | _ \<Rightarrow> Inl (CollaboratorError ''plugin.xml cannot be read''))"

text \<open>
  The environment over this file system. The descriptor parser, \<open>loadPluginsDir\<close>, the
  git clone and the registry stay parameters.
\<close>

definition posix_env ::
  "(string \<Rightarrow> (string \<times> string) option) \<Rightarrow> (filesystem \<Rightarrow> string \<Rightarrow> pinfo list) \<Rightarrow>
   (string \<Rightarrow> string \<Rightarrow> options \<Rightarrow> filesystem \<Rightarrow> (error + string) \<times> filesystem) \<Rightarrow>
   (string list \<Rightarrow> nat \<Rightarrow> filesystem \<Rightarrow> (error + string) \<times> filesystem) \<Rightarrow> filesystem env" where
  "posix_env parse load clone fetch =
     \<lparr> path_delimiter = CHR '':'',
       path_join = posix_join,
       fs_existsSync = posix_existsSync,
       fs_symlinkSync = posix_symlinkSync,
       shell_mkdir_p = posix_mkdir_p,
       shell_rm_rf = posix_rm_rf,
       shell_cp_R = posix_cp_R,
       PluginInfo = posix_PluginInfo parse,
       loadPluginsDir = load,
       clonePluginGit = clone,
       registry_fetch = fetch \<rparr>"

subsection \<open>A small world for the examples\<close>

text \<open>
  In the examples the content of a \<open>plugin.xml\<close> is \<open>id@version\<close>. The tree holds the
  plugin \<open>org.foo\<close> 1.2.3 under \<open>/src/foo\<close> and two search-path directories \<open>/sp1\<close> and
  \<open>/sp2\<close> with a plugin \<open>x\<close> each, an earlier install of
  \<open>org.foo\<close> under \<open>/plugins\<close> and the installed plugin \<open>org.bar\<close> there. The registry knows \<open>org.reg\<close> and downloads it to \<open>/tmp/reg\<close>;
  a clone of any URL puts the plugin \<open>org.git\<close> under the plugins directory.
\<close>

definition example_parse :: "string \<Rightarrow> (string \<times> string) option" where
  "example_parse content =
     (case split_on CHR ''@'' content of [i, v] \<Rightarrow> Some (i, v) | _ \<Rightarrow> None)"

definition example_files :: filesystem where
  "example_files =
     [[''src''] \<mapsto> Dir,
      [''src'', ''foo''] \<mapsto> Dir,
      [''src'', ''foo'', ''plugin.xml''] \<mapsto> File ''org.foo@1.2.3'',
      [''src'', ''foo'', ''www''] \<mapsto> Dir,
      [''src'', ''foo'', ''www'', ''foo.js''] \<mapsto> File ''js'',
      [''src'', ''foo'', ''.git''] \<mapsto> Dir,
      [''sp1''] \<mapsto> Dir,
      [''sp1'', ''x''] \<mapsto> Dir,
      [''sp1'', ''x'', ''plugin.xml''] \<mapsto> File ''x@1.0.0'',
      [''sp2''] \<mapsto> Dir,
      [''sp2'', ''x''] \<mapsto> Dir,
      [''sp2'', ''x'', ''plugin.xml''] \<mapsto> File ''x@2.0.0'',
      [''plugins''] \<mapsto> Dir,
      [''plugins'', ''org.foo''] \<mapsto> Dir,
      [''plugins'', ''org.foo'', ''stale.txt''] \<mapsto> File ''old'',
      [''plugins'', ''org.bar''] \<mapsto> Dir,
      [''plugins'', ''org.bar'', ''plugin.xml''] \<mapsto> File ''org.bar@1.0.0'']"

definition example_load :: "filesystem \<Rightarrow> string \<Rightarrow> pinfo list" where
  "example_load fs dir =
     (case posix_PluginInfo example_parse fs (posix_join dir ''x'') of
        Inl e \<Rightarrow> []
      | Inr p \<Rightarrow> [p])"

definition example_clone ::
  "string \<Rightarrow> string \<Rightarrow> options \<Rightarrow> filesystem \<Rightarrow> (error + string) \<times> filesystem" where
  "example_clone url plugins_dir options fs =
     (let dest = posix_join plugins_dir ''org.git''
      in (Inr dest,
          (posix_mkdir_p dest fs)(to_path dest @ [''plugin.xml''] \<mapsto> File ''org.git@0.1.0'')))"

definition example_fetch :: "string list \<Rightarrow> nat \<Rightarrow> filesystem \<Rightarrow> (error + string) \<times> filesystem" where
  "example_fetch ids cl fs =
     (if ids = [''org.reg'']
      then (Inr ''/tmp/reg'',
            (posix_mkdir_p ''/tmp/reg'' fs)([''tmp'', ''reg'', ''plugin.xml''] \<mapsto> File ''org.reg@3.0.0''))
      else (Inl (CollaboratorError ''not in the registry''), fs))"

definition example_env :: "filesystem env" where
  "example_env = posix_env example_parse example_load example_clone example_fetch"

definition example_state :: "filesystem state" where
  "example_state = \<lparr> files = example_files, localPlugins = None, calls = [], fetch_metadata = Map.empty \<rparr>"

section \<open>Installing and uninstalling a plugin in a platform project\<close>

text \<open>
  Modelled from the spec: the platform code (\<open>platforms/android\<close>, which the test
  \<open>android-two-uninstall.js\<close> drives through \<open>handlePlugin\<close>) is not among the sources.
  What follows is section 4.6 of the spec. A project is its files and directories (as
  locations below the project directory, which is \<open>[]\<close>), the component declarations of
  its manifest (by their unique name attribute) and the entries of its plugin registry
  document (by name and value). A plugin descriptor declares target files, components
  and registry entries.
\<close>

record project =
  proj_files :: "path set"
  proj_dirs :: "path set"
  proj_manifest :: "string list"
  proj_registry :: "(string \<times> string) list"





text \<open>
  "Walk upward from each deleted file's directory, deleting each ancestor directory that
  is now empty, stopping at (and never deleting) the platform project's fixed top-level
  source roots." The walk is over the directories from the deepest up; the project
  directory itself is never deleted.
\<close>

definition is_empty_dir :: "project \<Rightarrow> path \<Rightarrow> bool" where
  "is_empty_dir p d = (\<forall>q \<in> proj_files p \<union> proj_dirs p. \<not> strict_prefix d q)"

fun remove_empty_dirs :: "path set \<Rightarrow> path list \<Rightarrow> project \<Rightarrow> project" where
  "remove_empty_dirs roots [] p = p"
| "remove_empty_dirs roots (d # ds) p =
     (if d = [] \<or> d \<in> roots \<or> \<not> is_empty_dir p d then p
      else remove_empty_dirs roots ds (p\<lparr> proj_dirs := proj_dirs p - {d} \<rparr>))"










section \<open>The reference that is resolved\<close>

text \<open>
  \<open>fetchPlugin\<close> calls itself at most once: the string it is called with a second time
  has no \<open>#\<close>. \<open>resolved_src\<close>, \<open>resolved_options\<close> and \<open>resolved_state\<close> are the reference,
  the options and the state with which line 73 is reached.
\<close>

definition has_fragment :: "string \<Rightarrow> bool" where
  "has_fragment plugin_src =
     (case uri_hash (url_parse plugin_src) of
        None \<Rightarrow> False
      | Some h \<Rightarrow> h \<noteq> [] \<and> match_hash h \<noteq> None)"

definition resolved_src :: "string \<Rightarrow> string" where
  "resolved_src plugin_src =
     (if has_fragment plugin_src then substring_to_hash plugin_src else plugin_src)"

definition resolved_options :: "'fs env \<Rightarrow> string \<Rightarrow> options \<Rightarrow> options" where
  "resolved_options env plugin_src options =
     (case fragment_options (url_parse plugin_src) (default_options env options) of
        None \<Rightarrow> default_options env options
      | Some options2 \<Rightarrow> options2)"

definition resolved_state :: "'fs env \<Rightarrow> string \<Rightarrow> string \<Rightarrow> 'fs state \<Rightarrow> 'fs state" where
  "resolved_state env plugin_src plugins_dir st =
     (if has_fragment plugin_src
      then st\<lparr> files := shell_mkdir_p env plugins_dir (shell_mkdir_p env plugins_dir (files st)) \<rparr>
      else st\<lparr> files := shell_mkdir_p env plugins_dir (files st) \<rparr>)"

text \<open>
  The protocol that \<open>url_parse\<close> finds only depends on the input without its leading
  white space: \<open>protocol_of\<close> gives it from there.
\<close>

definition protocol_of :: "string \<Rightarrow> string option" where
  "protocol_of l =
     (if takeWhile protocol_char l \<noteq> [] \<and> take 1 (dropWhile protocol_char l) = '':''
      then Some (js_toLowerCase (takeWhile protocol_char l) @ '':'') else None)"


section \<open>The files after \<open>copyPlugin\<close>\<close>


text \<open>
  What \<open>copyPlugin\<close> makes of the files, for a source at \<open>s\<close> and a final directory at
  \<open>d\<close>: \<open>blocked\<close> says that something that is not a directory is in the way of
  \<open>mkdir -p\<close>, \<open>copied\<close> is the tree after \<open>rm\<close>, \<open>mkdir\<close> and \<open>cp\<close>, \<open>linked\<close> the tree after
  \<open>rm\<close> and \<open>symlinkSync\<close>.
\<close>

definition blocked :: "filesystem \<Rightarrow> path \<Rightarrow> bool" where
  "blocked fs d =
     list_ex (\<lambda>q. entry_at fs q \<noteq> None \<and> entry_at fs q \<noteq> Some Dir) (prefixes (butlast d))"

definition copied :: "path \<Rightarrow> path \<Rightarrow> filesystem \<Rightarrow> filesystem" where
  "copied s d fs =
     (\<lambda>p. if prefix d p
          then (if blocked fs d then None
                else (case drop (length d) p of
                        [] \<Rightarrow> Some Dir
                      | name # rest \<Rightarrow> if dot_name name then None else fs (s @ name # rest)))
          else if \<not> blocked fs d \<and> prefix p d \<and> fs p = None then Some Dir else fs p)"


section \<open>Lemmas\<close>

declare fetchPlugin.simps [simp del]

lemma subdir_value_not_Nil: "subdir_value opts \<noteq> []"
  by (auto simp: subdir_value_def split: option.splits)


lemma fragment_options_None: "(fragment_options (url_parse s) opts = None) = (\<not> has_fragment s)"
  by (auto simp: fragment_options_def has_fragment_def split: option.splits)

lemma fragment_options_subdir:
  assumes "fragment_options u (default_options env opts) = Some opts2"
  shows "default_options env opts2 = opts2"
proof -
  obtain h r1 r2 where h: "uri_hash u = Some h" "h \<noteq> []" "match_hash h = Some (r1, r2)"
    using assms by (auto simp: fragment_options_def split: option.splits if_splits)
  let ?o = "default_options env opts"
  have o2: "opts2 = ?o\<lparr> git_ref := (if r1 \<noteq> [] then Some r1 else git_ref ?o),
                         subdir := (case r2 of None \<Rightarrow> subdir ?o
                                    | Some s \<Rightarrow> if s \<noteq> [] then Some s else subdir ?o) \<rparr>"
    using assms h by (simp add: fragment_options_def)
  have "\<exists>s. subdir opts2 = Some s \<and> s \<noteq> []"
    unfolding o2 using subdir_value_not_Nil [of opts]
    by (cases r2) (auto simp: default_options_def)
  moreover have "\<exists>l. searchpath opts2 = SearchpathArray l"
    unfolding o2 by (simp add: default_options_def)
  ultimately show ?thesis
    by (auto simp: default_options_def subdir_value_def searchpath_value_def)
qed

lemma no_hash_no_fragment: "CHR ''#'' \<notin> set s \<Longrightarrow> \<not> has_fragment s"
  using url_parse_hash_in [of s] by (auto simp: has_fragment_def split: option.splits)

lemma substring_to_hash_no_hash: "CHR ''#'' \<notin> set (substring_to_hash s)"
  by (auto simp: substring_to_hash_def dest: set_takeWhileD)

lemma not_has_fragment_substring: "\<not> has_fragment (substring_to_hash s)"
  by (rule no_hash_no_fragment) (rule substring_to_hash_no_hash)

lemma fetchPlugin_no_fragment:
  assumes "\<not> has_fragment plugin_src"
  shows "fetchPlugin env plugin_src plugins_dir opts st =
           (if network_url (url_parse plugin_src) plugin_src
            then fetch_git env plugin_src plugins_dir (default_options env opts)
                   (st\<lparr> files := shell_mkdir_p env plugins_dir (files st) \<rparr>)
            else fetch_local env plugin_src plugins_dir (default_options env opts)
                   (st\<lparr> files := shell_mkdir_p env plugins_dir (files st) \<rparr>))"
proof -
  have "fragment_options (url_parse plugin_src) (default_options env opts) = None"
    using assms by (simp add: fragment_options_None)
  then show ?thesis
    by (subst fetchPlugin.simps) (simp add: Let_def)
qed

lemma fetchPlugin_fragment:
  assumes "fragment_options (url_parse plugin_src) (default_options env opts) = Some opts2"
  shows "fetchPlugin env plugin_src plugins_dir opts st =
           fetchPlugin env (substring_to_hash plugin_src) plugins_dir opts2
             (st\<lparr> files := shell_mkdir_p env plugins_dir (files st) \<rparr>)"
  using assms by (subst fetchPlugin.simps) (simp add: Let_def)

lemma fetchPlugin_resolved:
  "fetchPlugin env plugin_src plugins_dir opts st =
     (if network_url (url_parse (resolved_src plugin_src)) (resolved_src plugin_src)
      then fetch_git env (resolved_src plugin_src) plugins_dir
             (resolved_options env plugin_src opts) (resolved_state env plugin_src plugins_dir st)
      else fetch_local env (resolved_src plugin_src) plugins_dir
             (resolved_options env plugin_src opts) (resolved_state env plugin_src plugins_dir st))"
proof (cases "has_fragment plugin_src")
  case False
  then have "fragment_options (url_parse plugin_src) (default_options env opts) = None"
    by (simp add: fragment_options_None)
  with False show ?thesis
    by (simp add: fetchPlugin_no_fragment resolved_src_def resolved_options_def resolved_state_def)
next
  case True
  then obtain opts2 where
    o2: "fragment_options (url_parse plugin_src) (default_options env opts) = Some opts2"
    using fragment_options_None [of plugin_src "default_options env opts"] by auto
  have d: "default_options env opts2 = opts2"
    using o2 by (rule fragment_options_subdir)
  show ?thesis
    using True o2 d
    by (simp add: fetchPlugin_fragment [OF o2] fetchPlugin_no_fragment [OF not_has_fragment_substring]
        resolved_src_def resolved_options_def resolved_state_def)
qed

lemma split_on_not_Nil: "split_on c s \<noteq> []"
  by (induction s) (auto split: list.splits)

lemma length_split_on: "(Suc 0 < length (split_on c s)) = (c \<in> set s)"
proof (induction s)
  case Nil
  then show ?case by simp
next
  case (Cons x s)
  show ?case
  proof (cases "x = c")
    case True
    then show ?thesis using split_on_not_Nil [of c s] by (cases "split_on c s") auto
  next
    case False
    then show ?thesis using Cons split_on_not_Nil [of c s]
      by (cases "split_on c s") auto
  qed
qed

lemma append_sep_unique:
  assumes "c \<notin> set a" and "c \<notin> set b" and "a @ c # b = i @ c # v"
  shows "i = a \<and> v = b"
proof -
  have "takeWhile (\<lambda>x. x \<noteq> c) (a @ c # b) = a"
    using assms(1) by (induction a) auto
  moreover have "takeWhile (\<lambda>x. x \<noteq> c) (i @ c # v) = takeWhile (\<lambda>x. x \<noteq> c) i"
    by (induction i) auto
  ultimately have a: "a = takeWhile (\<lambda>x. x \<noteq> c) i"
    using assms(3) by simp
  obtain i' where i': "i = a @ i'"
    using a by (metis takeWhile_dropWhile_id)
  with assms(3) have eq: "c # b = i' @ c # v" by simp
  show ?thesis
  proof (cases i')
    case Nil
    with eq i' show ?thesis by simp
  next
    case (Cons y ys)
    with eq have "b = ys @ c # v" by simp
    with assms(2) show ?thesis by simp
  qed
qed


lemma find_append_if:
  "find P (xs @ ys) = (case find P xs of None \<Rightarrow> find P ys | Some x \<Rightarrow> Some x)"
  by (induction xs) auto

lemma find_SomeD: "find P xs = Some x \<Longrightarrow> x \<in> set xs \<and> P x"
  by (induction xs) (auto split: if_splits)

lemma fold_insert_lookup:
  "fold (\<lambda>p m. m(pinfo_id p \<mapsto> p)) ps m x =
     (case find (\<lambda>p. pinfo_id p = x) (rev ps) of None \<Rightarrow> m x | Some p \<Rightarrow> Some p)"
proof (induction ps rule: rev_induct)
  case Nil
  then show ?case by simp
next
  case (snoc p ps)
  then show ?case by simp
qed

lemma fold_dirs_concat:
  "fold (\<lambda>dir m. fold (\<lambda>p m. m(pinfo_id p \<mapsto> p)) (load dir) m) dirs m =
     fold (\<lambda>p m. m(pinfo_id p \<mapsto> p)) (concat (map load dirs)) m"
  by (induction dirs arbitrary: m) auto

lemma loadLocalPlugins_built:
  assumes "localPlugins st = None"
  shows "localPlugins (loadLocalPlugins env dirs st) =
     Some (\<lambda>x. find (\<lambda>p. pinfo_id p = x) (rev (concat (map (loadPluginsDir env (files st)) dirs))))"
  using assms
  by (simp add: loadLocalPlugins_def fold_dirs_concat fold_insert_lookup fun_eq_iff split: option.splits)

lemma loadLocalPlugins_Some: "\<exists>m. localPlugins (loadLocalPlugins env dirs st) = Some m"
  by (cases "localPlugins st") (simp_all add: loadLocalPlugins_def)

lemma link_resolved_options [simp]: "link (resolved_options env src opts) = link opts"
  by (auto simp: resolved_options_def fragment_options_def default_options_def
      split: option.splits if_splits)

lemma calls_resolved_state [simp]: "calls (resolved_state env src pd st) = calls st"
  by (simp add: resolved_state_def)


lemma takeWhile_takeWhile_imp:
  "(\<And>c. P c \<Longrightarrow> Q c) \<Longrightarrow> takeWhile P (takeWhile Q xs) = takeWhile P xs"
  by (induction xs) auto

lemma dropWhile_takeWhile_imp:
  "(\<And>c. P c \<Longrightarrow> Q c) \<Longrightarrow> dropWhile P (takeWhile Q xs) = takeWhile Q (dropWhile P xs)"
  by (induction xs) auto

lemma take1_takeWhile: "Q a \<Longrightarrow> (take (Suc 0) (takeWhile Q xs) = [a]) = (take (Suc 0) xs = [a])"
  by (cases xs) auto

lemma take2_takeWhile:
  "Q a \<Longrightarrow> Q b \<Longrightarrow> (take 2 (takeWhile Q xs) = [a, b]) = (take 2 xs = [a, b])"
proof (cases xs)
  case Nil
  then show ?thesis by simp
next
  case (Cons x ys)
  assume "Q a" "Q b"
  then show ?thesis using Cons by (cases ys) (auto simp: numeral_2_eq_2)
qed

lemma whitespace_not_protocol: "js_whitespace c \<Longrightarrow> \<not> protocol_char c"
  by (auto simp: js_whitespace_def protocol_char_def)

lemma trim_right_split:
  "\<exists>w. l = rev (dropWhile js_whitespace (rev l)) @ w \<and> list_all js_whitespace w"
proof -
  have "rev l = takeWhile js_whitespace (rev l) @ dropWhile js_whitespace (rev l)"
    by simp
  then have "l = rev (dropWhile js_whitespace (rev l)) @ rev (takeWhile js_whitespace (rev l))"
    by (metis rev_append rev_rev_ident)
  moreover have "list_all js_whitespace (rev (takeWhile js_whitespace (rev l)))"
    by (auto simp: list_all_iff dest: set_takeWhileD)
  ultimately show ?thesis by blast
qed

lemma takeWhile_protocol_append:
  "list_all js_whitespace w \<Longrightarrow> takeWhile protocol_char (xs @ w) = takeWhile protocol_char xs"
proof (induction xs)
  case Nil
  then show ?case by (cases w) (auto simp: whitespace_not_protocol)
next
  case (Cons x xs)
  then show ?case by simp
qed

lemma dropWhile_protocol_append:
  "list_all js_whitespace w \<Longrightarrow>
     (take (Suc 0) (dropWhile protocol_char (xs @ w)) = '':'')
        = (take (Suc 0) (dropWhile protocol_char xs) = '':'')"
proof (induction xs)
  case Nil
  then show ?case by (cases w) (auto simp: whitespace_not_protocol js_whitespace_def)
next
  case (Cons x xs)
  then show ?case by simp
qed

lemma protocol_of_trim: "protocol_of (js_trim s) = protocol_of (dropWhile js_whitespace s)"
proof -
  obtain w where w: "dropWhile js_whitespace s = js_trim s @ w" "list_all js_whitespace w"
    using trim_right_split [of "dropWhile js_whitespace s"] by (auto simp: js_trim_def)
  show ?thesis
    unfolding protocol_of_def w(1)
    by (simp add: takeWhile_protocol_append [OF w(2)] dropWhile_protocol_append [OF w(2)])
qed

lemma uri_protocol_url_parse: "uri_protocol (url_parse s) = protocol_of (dropWhile js_whitespace s)"
  unfolding protocol_of_trim [symmetric]
  by (simp add: url_parse_def Let_def protocol_of_def)

lemma protocol_of_takeWhile:
  "protocol_of (takeWhile (\<lambda>c. c \<noteq> CHR ''#'') l) = protocol_of l"
proof -
  have p: "\<And>c. protocol_char c \<Longrightarrow> c \<noteq> CHR ''#''"
    by (auto simp: protocol_char_def)
  show ?thesis
    unfolding protocol_of_def
    by (simp add: takeWhile_takeWhile_imp [OF p] dropWhile_takeWhile_imp [OF p] take1_takeWhile)
qed

lemma uri_protocol_substring:
  "CHR ''#'' \<in> set s \<Longrightarrow> uri_protocol (url_parse (substring_to_hash s)) = uri_protocol (url_parse s)"
proof -
  have w: "\<And>c. js_whitespace c \<Longrightarrow> c \<noteq> CHR ''#''"
    by (auto simp: js_whitespace_def)
  assume "CHR ''#'' \<in> set s"
  then show ?thesis
    by (simp add: substring_to_hash_def uri_protocol_url_parse dropWhile_takeWhile_imp [OF w]
        protocol_of_takeWhile)
qed

lemma match_drive_substring:
  "CHR ''#'' \<in> set s \<Longrightarrow> match_drive (substring_to_hash s) = match_drive s"
proof -
  have w: "\<And>c. word_char c \<Longrightarrow> c \<noteq> CHR ''#''"
    by (auto simp: word_char_def)
  assume "CHR ''#'' \<in> set s"
  then show ?thesis
    by (simp add: substring_to_hash_def match_drive_def takeWhile_takeWhile_imp [OF w]
        dropWhile_takeWhile_imp [OF w] take2_takeWhile)
qed

lemma has_fragment_hash: "has_fragment s \<Longrightarrow> CHR ''#'' \<in> set s"
  using url_parse_hash_in [of s] by (auto simp: has_fragment_def split: option.splits)

lemma network_url_resolved:
  "network_url (url_parse (resolved_src s)) (resolved_src s) = network_url (url_parse s) s"
proof (cases "has_fragment s")
  case True
  then have "CHR ''#'' \<in> set s" by (rule has_fragment_hash)
  then show ?thesis
    using True
    by (simp add: resolved_src_def network_url_def uri_protocol_substring match_drive_substring
        cong: option.case_cong)
next
  case False
  then show ?thesis by (simp add: resolved_src_def)
qed

lemma copyPlugin_metadata:
  assumes "copyPlugin env dir plugins_dir lnk st = (Inr dest, st')"
  shows "fetch_metadata st' dest = Some (LocalSource dir)"
  using assms
  by (auto simp: copyPlugin_def Let_def save_fetch_metadata_def split: sum.splits if_splits)

lemma copy_and_check_metadata:
  assumes "copy_and_check env dir plugins_dir opts linkable st = (Inr dest, st')"
  shows "fetch_metadata st' dest = Some (LocalSource dir)"
proof -
  obtain res st1 where c: "copyPlugin env dir plugins_dir (link opts \<and> linkable) st = (res, st1)"
    by (cases "copyPlugin env dir plugins_dir (link opts \<and> linkable) st") auto
  with assms have "res = Inr dest \<and> st1 = st'"
    by (auto simp: copy_and_check_def split: sum.splits)
  with c show ?thesis
    by (auto dest: copyPlugin_metadata)
qed

lemma fetch_git_metadata:
  assumes "fetch_git env r plugins_dir ro st = (Inr dest, st')"
  shows "fetch_metadata st' dest = Some (GitSource r (subdir_value ro) (git_ref ro))"
  using assms
  by (auto simp: fetch_git_def Let_def save_fetch_metadata_def split: if_splits prod.splits sum.splits)





lemma split_on_Cons_sep: "split_on c (c # s) = [] # split_on c s"
  by simp
















lemma js_join_Nil_iff: "[] \<notin> set xs \<Longrightarrow> (js_join sep xs = []) = (xs = [])"
proof (induction xs)
  case Nil
  then show ?case by simp
next
  case (Cons x xs)
  then show ?case by (cases xs) auto
qed









lemma posix_env_fields [simp]:
  "path_join (posix_env parse load clone fetch) = posix_join"
  "fs_symlinkSync (posix_env parse load clone fetch) = posix_symlinkSync"
  "shell_mkdir_p (posix_env parse load clone fetch) = posix_mkdir_p"
  "shell_rm_rf (posix_env parse load clone fetch) = posix_rm_rf"
  "shell_cp_R (posix_env parse load clone fetch) = posix_cp_R"
  "PluginInfo (posix_env parse load clone fetch) = posix_PluginInfo parse"
  "fs_existsSync (posix_env parse load clone fetch) = posix_existsSync"
  by (simp_all add: posix_env_def)












lemma copied_outside: "\<not> prefix d q \<Longrightarrow> \<not> prefix q d \<Longrightarrow> copied s d fs q = fs q"
  by (simp add: copied_def)










lemma remove_empty_dirs_files [simp]:
  "proj_files (remove_empty_dirs roots ds p) = proj_files p"
  by (induction ds arbitrary: p) auto

lemma remove_empty_dirs_documents [simp]:
  "proj_manifest (remove_empty_dirs roots ds p) = proj_manifest p"
  "proj_registry (remove_empty_dirs roots ds p) = proj_registry p"
  by (induction ds arbitrary: p) auto

lemma remove_empty_dirs_subset: "proj_dirs (remove_empty_dirs roots ds p) \<subseteq> proj_dirs p"
proof (induction ds arbitrary: p)
  case Nil
  then show ?case by simp
next
  case (Cons d ds)
  have "proj_dirs (remove_empty_dirs roots ds (p\<lparr> proj_dirs := proj_dirs p - {d} \<rparr>)) \<subseteq> proj_dirs p - {d}"
    using Cons [of "p\<lparr> proj_dirs := proj_dirs p - {d} \<rparr>"] by simp
  then show ?case by auto
qed















section \<open>The claims\<close>










text \<open>
  C5. \<open>checkID\<close> with the expected id \<open>a@b\<close> (no further \<open>@\<close> in \<open>a\<close> or \<open>b\<close>, as in
  \<open>foo@1.2.3\<close>) succeeds exactly when the descriptor at \<open>dir\<close> has id \<open>a\<close> and version \<open>b\<close>;
  with an expected id without \<open>@\<close> it succeeds exactly when the id is the expected one,
  whatever the version; without an expected id it does nothing; and when it fails on a
  descriptor that could be read, it throws the mismatch error.
\<close>

theorem checkID_expected:
  assumes "PluginInfo env fs dir = Inr pinfo"
  shows "(CHR ''@'' \<notin> set a \<and> CHR ''@'' \<notin> set b \<longrightarrow>
            (checkID env (Some (a @ ''@'' @ b)) dir fs = Inr ()
               \<longleftrightarrow> pinfo_id pinfo = a \<and> pinfo_version pinfo = b))
       \<and> (a \<noteq> [] \<and> CHR ''@'' \<notin> set a \<longrightarrow>
            (checkID env (Some a) dir fs = Inr () \<longleftrightarrow> pinfo_id pinfo = a))
       \<and> checkID env None dir fs = Inr ()
       \<and> (checkID env (Some e) dir fs \<noteq> Inr () \<longrightarrow>
            (\<exists>got. checkID env (Some e) dir fs = Inl (Error (mismatch_message e got))))"
proof (intro conjI impI)
  assume h: "CHR ''@'' \<notin> set a \<and> CHR ''@'' \<notin> set b"
  have "(a @ ''@'' @ b = pinfo_id pinfo @ ''@'' @ pinfo_version pinfo)
          = (pinfo_id pinfo = a \<and> pinfo_version pinfo = b)"
    using append_sep_unique [of "CHR ''@''" a b "pinfo_id pinfo" "pinfo_version pinfo"] h
    by auto
  then show "checkID env (Some (a @ ''@'' @ b)) dir fs = Inr ()
               \<longleftrightarrow> pinfo_id pinfo = a \<and> pinfo_version pinfo = b"
    using assms by (simp add: checkID_def Let_def length_split_on)
next
  assume "a \<noteq> [] \<and> CHR ''@'' \<notin> set a"
  then show "checkID env (Some a) dir fs = Inr () \<longleftrightarrow> pinfo_id pinfo = a"
    using assms by (auto simp: checkID_def Let_def length_split_on split: if_splits)
next
  show "checkID env None dir fs = Inr ()"
    by (simp add: checkID_def)
next
  assume "checkID env (Some e) dir fs \<noteq> Inr ()"
  then show "\<exists>got. checkID env (Some e) dir fs = Inl (Error (mismatch_message e got))"
    using assms by (auto simp: checkID_def Let_def split: if_splits)
qed

theorem checkID_expected_witness:
  "PluginInfo example_env example_files ''/src/foo''
     = Inr \<lparr> pinfo_id = ''org.foo'', pinfo_version = ''1.2.3'', pinfo_dir = ''/src/foo'' \<rparr>
   \<and> checkID example_env (Some ''org.foo@1.2.3'') ''/src/foo'' example_files = Inr ()
   \<and> checkID example_env (Some ''org.foo'') ''/src/foo'' example_files = Inr ()
   \<and> checkID example_env (Some ''org.foo@1.2.4'') ''/src/foo'' example_files
       = Inl (Error (mismatch_message ''org.foo@1.2.4'' ''org.foo@1.2.3''))"
proof -
  have h: "PluginInfo example_env example_files ''/src/foo''
     = Inr \<lparr> pinfo_id = ''org.foo'', pinfo_version = ''1.2.3'', pinfo_dir = ''/src/foo'' \<rparr>"
    by code_simp
  have m: "checkID example_env (Some ''org.foo@1.2.4'') ''/src/foo'' example_files
       = Inl (Error (mismatch_message ''org.foo@1.2.4'' ''org.foo@1.2.3''))"
    by code_simp
  from checkID_expected [OF h, of "''org.foo''" "''1.2.3''"] h m show ?thesis
    by simp
qed

text \<open>
  C6. When line 73 takes the reference for a network URL and \<open>options.link\<close> is set,
  \<open>fetchPlugin\<close> rejects with \<open>CordovaError('--link is not supported for git URLs')\<close>;
  nothing but the \<open>mkdir\<close> of line 44 has happened, and no call was made to the git
  collaborator (or any other).
\<close>

theorem link_git_url_rejected:
  assumes "link opts"
    and "network_url (url_parse plugin_src) plugin_src"
  shows "fst (fetchPlugin env plugin_src plugins_dir opts st) = Inl (CordovaError link_message)
       \<and> snd (fetchPlugin env plugin_src plugins_dir opts st) = resolved_state env plugin_src plugins_dir st
       \<and> calls (snd (fetchPlugin env plugin_src plugins_dir opts st)) = calls st"
  using assms by (simp add: fetchPlugin_resolved fetch_git_def network_url_resolved)

theorem link_git_url_rejected_witness:
  "link (no_options\<lparr> link := True \<rparr>)
   \<and> network_url (url_parse ''https://github.com/a/b.git#v1:sub'') ''https://github.com/a/b.git#v1:sub''
   \<and> fst (fetchPlugin example_env ''https://github.com/a/b.git#v1:sub'' ''plugins''
             (no_options\<lparr> link := True \<rparr>) example_state)
       = Inl (CordovaError ''--link is not supported for git URLs'')
   \<and> calls (snd (fetchPlugin example_env ''https://github.com/a/b.git#v1:sub'' ''plugins''
                   (no_options\<lparr> link := True \<rparr>) example_state)) = []"
proof -
  have n: "network_url (url_parse ''https://github.com/a/b.git#v1:sub'') ''https://github.com/a/b.git#v1:sub''"
    by code_simp
  have l: "link (no_options\<lparr> link := True \<rparr>)"
    by simp
  from link_git_url_rejected [OF l n, of example_env "''plugins''" example_state] n l
  show ?thesis
    by (simp add: link_message_def example_state_def)
qed

text \<open>
  C7, as amended. After a successful fetch the record saved for the final directory is
  \<open>{type: 'git', url, subdir, ref}\<close>, with the reference without its fragment as \<open>url\<close>,
  when the plugin was cloned from a network URL; in every other case it is
  \<open>{type: 'local', path}\<close> with the directory that \<open>copyPlugin\<close> was given: the local path,
  the directory of the search-path hit, or the directory the registry fetch returned.
  \<open>fetch.js\<close> writes no record of type \<open>registry\<close>: the counterexample fetches a plugin
  from the registry and finds a \<open>local\<close> record.
\<close>

theorem provenance_recorded:
  assumes "fetchPlugin env plugin_src plugins_dir opts st = (Inr dest, st')"
  shows "let r = resolved_src plugin_src;
             ro = resolved_options env plugin_src opts;
             s0 = resolved_state env plugin_src plugins_dir st;
             plugin_dir = path_join env r (subdir_value ro);
             s1 = loadLocalPlugins env (searchpath_value env ro) s0;
             found = (case localPlugins s1 of None \<Rightarrow> None | Some m \<Rightarrow> m r)
         in (network_url (url_parse plugin_src) plugin_src \<longrightarrow>
               fetch_metadata st' dest = Some (GitSource r (subdir_value ro) (git_ref ro)))
          \<and> (\<not> network_url (url_parse plugin_src) plugin_src \<longrightarrow>
               (fs_existsSync env (files s0) plugin_dir \<longrightarrow>
                  fetch_metadata st' dest = Some (LocalSource plugin_dir))
             \<and> (\<not> fs_existsSync env (files s0) plugin_dir \<longrightarrow>
                  (\<forall>pinfo. found = Some pinfo \<longrightarrow>
                     fetch_metadata st' dest = Some (LocalSource (pinfo_dir pinfo))))
             \<and> (\<not> fs_existsSync env (files s0) plugin_dir \<and> found = None \<longrightarrow>
                  (\<exists>dir fs2. registry_fetch env [r] (client ro) (files s1) = (Inr dir, fs2)
                     \<and> fetch_metadata st' dest = Some (LocalSource dir))))"
proof -
  let ?r = "resolved_src plugin_src"
  let ?ro = "resolved_options env plugin_src opts"
  let ?s0 = "resolved_state env plugin_src plugins_dir st"
  let ?plugin_dir = "path_join env ?r (subdir_value ?ro)"
  let ?s1 = "loadLocalPlugins env (searchpath_value env ?ro) ?s0"
  let ?found = "case localPlugins ?s1 of None \<Rightarrow> None | Some m \<Rightarrow> m ?r"
  let ?n = "network_url (url_parse plugin_src) plugin_src"
  have git: "fetch_metadata st' dest = Some (GitSource ?r (subdir_value ?ro) (git_ref ?ro))" if "?n"
  proof -
    from that assms have "fetch_git env ?r plugins_dir ?ro ?s0 = (Inr dest, st')"
      by (simp add: fetchPlugin_resolved network_url_resolved)
    then show ?thesis by (rule fetch_git_metadata)
  qed
  have loc: "fetch_local env ?r plugins_dir ?ro ?s0 = (Inr dest, st')" if "\<not> ?n"
    using that assms by (simp add: fetchPlugin_resolved network_url_resolved)
  have l1: "fetch_metadata st' dest = Some (LocalSource ?plugin_dir)"
    if "\<not> ?n" "fs_existsSync env (files ?s0) ?plugin_dir"
  proof -
    from loc [OF that(1)] that(2)
    have "copy_and_check env ?plugin_dir plugins_dir ?ro True ?s0 = (Inr dest, st')"
      by (simp add: fetch_local_def Let_def)
    then show ?thesis by (rule copy_and_check_metadata)
  qed
  have l2: "fetch_metadata st' dest = Some (LocalSource (pinfo_dir pinfo))"
    if "\<not> ?n" "\<not> fs_existsSync env (files ?s0) ?plugin_dir" "?found = Some pinfo" for pinfo
  proof -
    from loc [OF that(1)] that(2,3)
    have "copy_and_check env (pinfo_dir pinfo) plugins_dir ?ro True ?s1 = (Inr dest, st')"
      by (simp add: fetch_local_def Let_def)
    then show ?thesis by (rule copy_and_check_metadata)
  qed
  have l3: "\<exists>dir fs2. registry_fetch env [?r] (client ?ro) (files ?s1) = (Inr dir, fs2)
                     \<and> fetch_metadata st' dest = Some (LocalSource dir)"
    if "\<not> ?n" "\<not> fs_existsSync env (files ?s0) ?plugin_dir" "?found = None"
  proof -
    obtain res fs2 where reg: "registry_fetch env [?r] (client ?ro) (files ?s1) = (res, fs2)"
      by (cases "registry_fetch env [?r] (client ?ro) (files ?s1)") auto
    let ?s2 = "?s1\<lparr> files := fs2, calls := calls ?s1 @ [RegistryFetch [?r] (client ?ro)] \<rparr>"
    from loc [OF that(1)] that(2,3) reg
    have "\<exists>dir. res = Inr dir \<and> copy_and_check env dir plugins_dir ?ro False ?s2 = (Inr dest, st')"
      by (auto simp: fetch_local_def Let_def split: if_splits sum.splits)
    then obtain dir where "res = Inr dir"
      and "copy_and_check env dir plugins_dir ?ro False ?s2 = (Inr dest, st')"
      by blast
    with reg show ?thesis
      by (auto dest: copy_and_check_metadata)
  qed
  show ?thesis
    unfolding Let_def using git l1 l2 l3 by blast
qed

theorem provenance_recorded_witness:
  "fst (fetchPlugin example_env ''https://github.com/a/b.git#v1:sub'' ''plugins'' no_options example_state)
     = Inr ''plugins/org.git''
   \<and> network_url (url_parse ''https://github.com/a/b.git#v1:sub'') ''https://github.com/a/b.git#v1:sub''
   \<and> fetch_metadata
         (snd (fetchPlugin example_env ''https://github.com/a/b.git#v1:sub'' ''plugins'' no_options
                 example_state)) ''plugins/org.git''
       = Some (GitSource ''https://github.com/a/b.git'' ''sub'' (Some ''v1''))"
proof -
  let ?src = "''https://github.com/a/b.git#v1:sub''"
  let ?res = "fetchPlugin example_env ?src ''plugins'' no_options example_state"
  have f: "fst ?res = Inr ''plugins/org.git''"
    by code_simp
  then have e: "?res = (Inr ''plugins/org.git'', snd ?res)"
    by (metis prod.collapse)
  have n: "network_url (url_parse ?src) ?src"
    by code_simp
  have r: "resolved_src ?src = ''https://github.com/a/b.git''"
    by code_simp
  have s: "subdir_value (resolved_options example_env ?src no_options) = ''sub''"
    by code_simp
  have g: "git_ref (resolved_options example_env ?src no_options) = Some ''v1''"
    by code_simp
  from provenance_recorded [OF e, unfolded Let_def, THEN conjunct1, rule_format, OF n] r s g
  have "fetch_metadata (snd ?res) ''plugins/org.git''
          = Some (GitSource ''https://github.com/a/b.git'' ''sub'' (Some ''v1''))"
    by simp
  with f n show ?thesis by simp
qed

theorem registry_recorded_as_local:
  "fst (fetchPlugin example_env ''org.reg'' ''plugins'' no_options example_state) = Inr ''plugins/org.reg''
   \<and> calls (snd (fetchPlugin example_env ''org.reg'' ''plugins'' no_options example_state))
       = [RegistryFetch [''org.reg''] 0]
   \<and> fetch_metadata (snd (fetchPlugin example_env ''org.reg'' ''plugins'' no_options example_state))
        ''plugins/org.reg'' = Some (LocalSource ''/tmp/reg'')
   \<and> map_option source_type
        (fetch_metadata (snd (fetchPlugin example_env ''org.reg'' ''plugins'' no_options example_state))
           ''plugins/org.reg'') \<noteq> Some ''registry''"
  by code_simp

text \<open>
  C8. A second \<open>loadLocalPlugins\<close>, whatever its search path, leaves the state as the first
  one made it. When the index is built, an identifier resolves to the last descriptor with
  that identifier in scan order (the directories in search-path order, the descriptors of
  a directory in the order \<open>loadPluginsDir\<close> gives them); so for the search path \<open>[A, B]\<close>
  an identifier that \<open>B\<close> has resolves to the descriptor from \<open>B\<close>, whatever \<open>A\<close> holds.
\<close>

theorem loadLocalPlugins_once_later_wins:
  "loadLocalPlugins env again_dirs (loadLocalPlugins env first_dirs st) = loadLocalPlugins env first_dirs st
   \<and> (localPlugins st = None \<longrightarrow>
        localPlugins (loadLocalPlugins env dirs st) =
          Some (\<lambda>x. find (\<lambda>p. pinfo_id p = x)
                      (rev (concat (map (loadPluginsDir env (files st)) dirs)))))
   \<and> (localPlugins st = None
        \<and> pB \<in> set (loadPluginsDir env (files st) B)
        \<and> (\<forall>q \<in> set (loadPluginsDir env (files st) B). pinfo_id q = pinfo_id pB \<longrightarrow> q = pB)
        \<longrightarrow> (\<exists>m. localPlugins (loadLocalPlugins env [A, B] st) = Some m \<and> m (pinfo_id pB) = Some pB))"
proof (intro conjI impI)
  obtain m where "localPlugins (loadLocalPlugins env first_dirs st) = Some m"
    using loadLocalPlugins_Some by blast
  then show "loadLocalPlugins env again_dirs (loadLocalPlugins env first_dirs st) = loadLocalPlugins env first_dirs st"
    by (simp add: loadLocalPlugins_def [of env again_dirs])
next
  assume "localPlugins st = None"
  then show "localPlugins (loadLocalPlugins env dirs st) =
          Some (\<lambda>x. find (\<lambda>p. pinfo_id p = x)
                      (rev (concat (map (loadPluginsDir env (files st)) dirs))))"
    by (rule loadLocalPlugins_built)
next
  assume h: "localPlugins st = None
        \<and> pB \<in> set (loadPluginsDir env (files st) B)
        \<and> (\<forall>q \<in> set (loadPluginsDir env (files st) B). pinfo_id q = pinfo_id pB \<longrightarrow> q = pB)"
  let ?P = "\<lambda>p. pinfo_id p = pinfo_id pB"
  let ?lB = "loadPluginsDir env (files st) B"
  from h have "find ?P (rev ?lB) \<noteq> None"
    by (auto simp: find_None_iff)
  then obtain q where q: "find ?P (rev ?lB) = Some q" by auto
  then have "q \<in> set ?lB \<and> ?P q"
    by (auto dest: find_SomeD)
  with h have "q = pB" by blast
  with q have "find ?P (rev (concat (map (loadPluginsDir env (files st)) [A, B]))) = Some pB"
    by (simp add: find_append_if)
  with h show "\<exists>m. localPlugins (loadLocalPlugins env [A, B] st) = Some m \<and> m (pinfo_id pB) = Some pB"
    by (simp add: loadLocalPlugins_built)
qed

theorem loadLocalPlugins_once_later_wins_witness:
  "localPlugins example_state = None
   \<and> localPlugins (loadLocalPlugins example_env [''/other'']
        (loadLocalPlugins example_env [''/sp1'', ''/sp2''] example_state))
     = localPlugins (loadLocalPlugins example_env [''/sp1'', ''/sp2''] example_state)
   \<and> (\<exists>m. localPlugins (loadLocalPlugins example_env [''/sp1'', ''/sp2''] example_state) = Some m
          \<and> m ''x'' = Some \<lparr> pinfo_id = ''x'', pinfo_version = ''2.0.0'', pinfo_dir = ''/sp2/x'' \<rparr>)"
proof -
  let ?pB = "\<lparr> pinfo_id = ''x'', pinfo_version = ''2.0.0'', pinfo_dir = ''/sp2/x'' \<rparr>"
  have n: "localPlugins example_state = None"
    by (simp add: example_state_def)
  have lB: "loadPluginsDir example_env (files example_state) ''/sp2'' = [?pB]"
    by code_simp
  note t = loadLocalPlugins_once_later_wins [where env = example_env and st = example_state
      and first_dirs = "[''/sp1'', ''/sp2'']" and again_dirs = "[''/other'']" and dirs = "[]"
      and A = "''/sp1''" and B = "''/sp2''" and pB = ?pB]
  from t have "loadLocalPlugins example_env [''/other'']
        (loadLocalPlugins example_env [''/sp1'', ''/sp2''] example_state)
     = loadLocalPlugins example_env [''/sp1'', ''/sp2''] example_state"
    by blast
  moreover from t n lB
  have "\<exists>m. localPlugins (loadLocalPlugins example_env [''/sp1'', ''/sp2''] example_state) = Some m
          \<and> m ''x'' = Some ?pB"
    by simp
  ultimately show ?thesis
    using n by simp
qed

text \<open>
  C9. The subdir that fragment parsing stores can carry path separators: the regular
  expression drops one leading and one trailing slash, so the fragment \<open>#ref://sub//\<close>
  stores \<open>/sub/\<close>, and that is the subdir the git branch works with and records.
\<close>

theorem fragment_subdir_keeps_slashes:
  "map_option subdir
     (fragment_options (url_parse ''http://foo.com/bar#ref://sub//'') (default_options example_env no_options))
     = Some (Some ''/sub/'')
   \<and> fetch_metadata
        (snd (fetchPlugin example_env ''http://foo.com/bar#ref://sub//'' ''plugins'' no_options example_state))
        ''plugins/org.git''
     = Some (GitSource ''http://foo.com/bar'' ''/sub/'' (Some ''ref''))"
  by code_simp



end
